theory Spec2Isabelle
  imports Main
begin

section \<open>Python strings\<close>

text \<open>
  A Python \<open>str\<close> is modelled as a \<open>string\<close>, one \<open>char\<close> per code point (code points
  below 256).  The functions of this section are the string operations that
  \<open>plex/lexer.py\<close> calls: slicing, \<open>str.count\<close>, \<open>str.split\<close>, indexing,
  \<open>str(int)\<close> and \<open>str.format\<close>.
\<close>

definition newline :: char where
  "newline = CHR 0x0A"

definition blank :: char where
  "blank = CHR '' ''"

text \<open>\<open>s[i:j]\<close> for non-negative \<open>i\<close> and \<open>j\<close>.\<close>

definition slice :: "string \<Rightarrow> nat \<Rightarrow> nat \<Rightarrow> string" where
  "slice s i j = take (j - i) (drop i s)"

text \<open>\<open>s.count(ch, start, end)\<close> for a one-character \<open>ch\<close>: the occurrences of \<open>ch\<close>
  at the indices \<open>start \<le> k < end\<close>; an \<open>end\<close> beyond the string is clamped.\<close>

fun str_count :: "string \<Rightarrow> char \<Rightarrow> nat \<Rightarrow> nat \<Rightarrow> nat" where
  "str_count [] ch start end = 0"
| "str_count (c # cs) ch start end =
     (if end = 0 then 0
      else if 0 < start then str_count cs ch (start - 1) (end - 1)
      else (if c = ch then 1 else 0) + str_count cs ch 0 (end - 1))"

text \<open>\<open>s.split(sep)\<close> for a one-character \<open>sep\<close>; the result is never empty.\<close>

fun str_split :: "string \<Rightarrow> char \<Rightarrow> string list" where
  "str_split [] sep = [[]]"
| "str_split (c # cs) sep =
     (if c = sep then [] # str_split cs sep
      else (case str_split cs sep of
              [] \<Rightarrow> [[c]]
            | part # parts \<Rightarrow> (c # part) # parts))"

text \<open>\<open>xs[i]\<close>: a negative index counts from the end, an index out of range raises
  \<open>IndexError\<close> (the value \<open>None\<close> here).\<close>

definition py_index :: "'a list \<Rightarrow> int \<Rightarrow> 'a option" where
  "py_index xs i =
     (let k = (if i < 0 then i + int (length xs) else i)
      in if k < 0 \<or> int (length xs) \<le> k then None else Some (xs ! nat k))"

text \<open>\<open>str(n)\<close> for an \<open>int\<close>: decimal digits, with a minus sign when negative.\<close>

definition digit_char :: "nat \<Rightarrow> char" where
  "digit_char d = ''0123456789'' ! d"

fun str_nat :: "nat \<Rightarrow> string" where
  "str_nat n = (if n < 10 then [digit_char n] else str_nat (n div 10) @ [digit_char (n mod 10)])"

declare str_nat.simps [simp del]

definition str_int :: "int \<Rightarrow> string" where
  "str_int i = (if i < 0 then CHR ''-'' # str_nat (nat (- i)) else str_nat (nat i))"

text \<open>\<open>' ' * n\<close>: a negative count gives the empty string.\<close>

definition str_repeat :: "char \<Rightarrow> int \<Rightarrow> string" where
  "str_repeat c n = replicate (nat n) c"

text \<open>\<open>template.format(*args)\<close> for a template whose only replacement fields are
  \<open>{}\<close>: each field takes the next argument.  A field with no argument left raises
  \<open>IndexError\<close> in Python; the template of this module has four fields and is always
  given four arguments, and the model drops such a field.\<close>

fun str_format :: "string \<Rightarrow> string list \<Rightarrow> string" where
  "str_format [] args = []"
| "str_format [c] args = [c]"
| "str_format (c # d # t) args =
     (if c = CHR ''{'' \<and> d = CHR ''}''
      then (case args of [] \<Rightarrow> str_format t [] | a # rest \<Rightarrow> a @ str_format t rest)
      else c # str_format (d # t) args)"


section \<open>The regular-expression capability\<close>

text \<open>
  The \<open>re\<close> module is not part of the repository.  A compiled pattern is modelled by
  what the lexer uses of it: \<open>p.match(buffer, pos)\<close> is \<open>None\<close>, or a match object
  whose \<open>end()\<close> is the returned offset and whose \<open>group(0)\<close> is \<open>buffer[pos:end]\<close>.
  \<open>re.compile\<close> is a parameter of type \<open>string \<Rightarrow> pattern option\<close>, \<open>None\<close> standing
  for \<open>re.error\<close>.
\<close>

type_synonym pattern = "string \<Rightarrow> nat \<Rightarrow> nat option"

text \<open>What \<open>re\<close> guarantees of a match that starts inside the buffer: it ends at or
  after its start and inside the buffer.\<close>

definition wf_pattern :: "pattern \<Rightarrow> bool" where
  "wf_pattern p \<longleftrightarrow> (\<forall>b i e. i < length b \<and> p b i = Some e \<longrightarrow> i \<le> e \<and> e \<le> length b)"

text \<open>\<open>\s\<close> on a \<open>str\<close> pattern: the code points below 256 that Python 3 counts as
  whitespace (tab, line feed, vertical tab, form feed, carriage return, the four
  separators \<open>0x1C\<close> to \<open>0x1F\<close>, space, \<open>0x85\<close> and \<open>0xA0\<close>).\<close>

definition is_space :: "char \<Rightarrow> bool" where
  "is_space c \<longleftrightarrow> c \<in> set [CHR 0x09, CHR 0x0A, CHR 0x0B, CHR 0x0C, CHR 0x0D,
                          CHR 0x1C, CHR 0x1D, CHR 0x1E, CHR 0x1F, CHR 0x20, CHR 0x85, CHR 0xA0]"

text \<open>\<open>WHITESPACE = '\s+'\<close> compiled: the longest non-empty run of whitespace from
  \<open>pos\<close>.\<close>

definition ws_pattern :: pattern where
  "ws_pattern b i =
     (let n = length (takeWhile is_space (drop i b))
      in if n = 0 then None else Some (i + n))"


section \<open>Data model\<close>

datatype exn =
    LexerError string
  | StopIteration
  | AttributeError string
  | IndexError
  | ReError string
  | Raised string

datatype Token = Token (token_value: string) (token_type: string) (token_pos: "nat \<times> int")

text \<open>
  The data attributes of a \<open>Lexer\<close> instance.  \<open>line_start\<close> is \<open>_line_start\<close>,
  \<open>ignore_ws\<close> is \<open>_ignore_ws\<close>.  \<open>underscore_pos\<close> is the attribute \<open>_pos\<close>, which
  \<open>_error\<close> reads and which no method of the class assigns: \<open>None\<close> means that the
  instance has no such attribute.  \<open>pos\<close> and \<open>line_start\<close> only ever hold 0 or the end
  offset of a match, so they are natural numbers; the column is a difference of the
  two and an integer.
\<close>

record cursor =
  buffer :: string
  pos :: nat
  col_no :: nat
  line_start :: nat
  ignore_ws :: bool
  underscore_pos :: "int option"

text \<open>
  The callbacks receive the lexer instance and may assign its data attributes, return
  or raise: a callback is a function of the cursor that gives its outcome together
  with the cursor it leaves.  (A callback that registers rules or hooks while it runs
  is outside the model.)  An action returns a token or \<open>None\<close>.
\<close>

type_synonym action = "cursor \<Rightarrow> Token \<Rightarrow> (exn + Token option) \<times> cursor"

type_synonym hook = "cursor \<Rightarrow> char \<Rightarrow> (exn + unit) \<times> cursor"

record PatternAction =
  pattern :: pattern
  action :: action

text \<open>\<open>_rules\<close> is a \<open>dict\<close>, iterated in insertion order: an association list.\<close>

record lexer =
  cur :: cursor
  error_func :: "hook option"
  rules :: "(string \<times> PatternAction) list"

text \<open>\<open>d[k] = v\<close>: a key already present keeps its place, a new key goes last.\<close>

fun dict_set :: "('k \<times> 'v) list \<Rightarrow> 'k \<Rightarrow> 'v \<Rightarrow> ('k \<times> 'v) list" where
  "dict_set [] k v = [(k, v)]"
| "dict_set ((k', v') # d) k v = (if k' = k then (k, v) # d else (k', v') # dict_set d k v)"


section \<open>The Lexer class\<close>

text \<open>\<open>Lexer.__init__\<close>\<close>

definition lexer_init :: lexer where
  "lexer_init =
     \<lparr>cur = \<lparr>buffer = [], pos = 0, col_no = 0, line_start = 0, ignore_ws = True,
             underscore_pos = None\<rparr>,
      error_func = None,
      rules = []\<rparr>"

text \<open>\<open>Lexer.setup\<close>\<close>

definition lexer_setup :: "string \<Rightarrow> bool \<Rightarrow> lexer \<Rightarrow> lexer" where
  "lexer_setup b w L = L\<lparr>cur := (cur L)\<lparr>buffer := b, pos := 0, col_no := 0, ignore_ws := w\<rparr>\<rparr>"

text \<open>\<open>Lexer.get_pos\<close>\<close>

definition get_pos :: "cursor \<Rightarrow> nat \<times> int" where
  "get_pos c =
     (let line_no = str_count (buffer c) newline 0 (pos c)
      in (line_no, int (pos c) - int (line_start c)))"

text \<open>The whitespace block at the head of \<open>Lexer._token\<close>.\<close>

definition skip_ws :: "cursor \<Rightarrow> cursor" where
  "skip_ws c =
     (if ignore_ws c
      then (case ws_pattern (buffer c) (pos c) of
              None \<Rightarrow> c
            | Some e \<Rightarrow>
                (if newline \<in> set (slice (buffer c) (pos c) e)
                 then c\<lparr>line_start := e\<rparr> else c)\<lparr>pos := e\<rparr>)
      else c)"

text \<open>\<open>LEXER_ERR_MSG\<close>\<close>

definition LEXER_ERR_MSG :: string where
  "LEXER_ERR_MSG =
     [newline, newline] @ ''lexing error at line {}, column {}:'' @ [newline, newline]
     @ ''     {}'' @ [newline]
     @ ''     {}^'' @ [newline, newline]
     @ ''invalid character in source'' @ [newline]"

text \<open>\<open>Lexer._error\<close>.  In the default branch \<open>split('\n')[line]\<close> is an indexing that
  can raise; in the hook branch the argument \<open>self.buffer[self._pos]\<close> is evaluated
  before the hook is called.\<close>

definition lexer_error :: "lexer \<Rightarrow> (exn + unit) \<times> lexer" where
  "lexer_error L =
     (case error_func L of
        None \<Rightarrow>
          (let (line, column) = get_pos (cur L)
           in case py_index (str_split (buffer (cur L)) newline) (int line) of
                None \<Rightarrow> (Inl IndexError, L)
              | Some source_line \<Rightarrow>
                  (Inl (LexerError (str_format LEXER_ERR_MSG
                          [str_int (int line), str_int column, source_line,
                           str_repeat blank column])), L))
      | Some f \<Rightarrow>
          (case underscore_pos (cur L) of
             None \<Rightarrow> (Inl (AttributeError ''_pos''), L)
           | Some i \<Rightarrow>
               (case py_index (buffer (cur L)) i of
                  None \<Rightarrow> (Inl IndexError, L)
                | Some ch \<Rightarrow> (case f (cur L) ch of (r, c') \<Rightarrow> (r, L\<lparr>cur := c'\<rparr>)))))"

text \<open>The body of \<open>if match:\<close> in the rule loop of \<open>Lexer._token\<close>: build the token,
  call the action, then assign \<open>pos\<close>.  An action that raises leaves \<open>pos\<close> as it
  set it.\<close>

definition fire :: "lexer \<Rightarrow> string \<Rightarrow> PatternAction \<Rightarrow> nat \<Rightarrow> (exn + Token option) \<times> lexer" where
  "fire L token_name pa e =
     (let token = Token (slice (buffer (cur L)) (pos (cur L)) e) token_name (get_pos (cur L))
      in case action pa (cur L) token of
           (Inl x, c') \<Rightarrow> (Inl x, L\<lparr>cur := c'\<rparr>)
         | (Inr modfied_token, c') \<Rightarrow> (Inr modfied_token, L\<lparr>cur := c'\<lparr>pos := e\<rparr>\<rparr>))"

text \<open>The loop \<open>for token_name, pattern in _rules.items()\<close> and the call of
  \<open>_error\<close> after it; when \<open>_error\<close> returns, \<open>_token\<close> returns \<open>None\<close>.\<close>

fun token_loop :: "(string \<times> PatternAction) list \<Rightarrow> lexer \<Rightarrow> (exn + Token option) \<times> lexer" where
  "token_loop [] L =
     (case lexer_error L of
        (Inl x, L') \<Rightarrow> (Inl x, L')
      | (Inr u, L') \<Rightarrow> (Inr None, L'))"
| "token_loop ((token_name, pa) # rest) L =
     (case pattern pa (buffer (cur L)) (pos (cur L)) of
        Some e \<Rightarrow> fire L token_name pa e
      | None \<Rightarrow> token_loop rest L)"

text \<open>\<open>Lexer._token\<close>\<close>

definition lexer_token :: "lexer \<Rightarrow> (exn + Token option) \<times> lexer" where
  "lexer_token L =
     (let L1 = L\<lparr>cur := skip_ws (cur L)\<rparr>
      in if length (buffer (cur L1)) \<le> pos (cur L1) then (Inr None, L1)
         else token_loop (rules L1) L1)"

text \<open>\<open>Lexer.__next__\<close>\<close>

definition lexer_next :: "lexer \<Rightarrow> (exn + Token) \<times> lexer" where
  "lexer_next L =
     (case lexer_token L of
        (Inl x, L') \<Rightarrow> (Inl x, L')
      | (Inr None, L') \<Rightarrow> (Inl StopIteration, L')
      | (Inr (Some token), L') \<Rightarrow> (Inr token, L'))"

text \<open>\<open>Lexer.on_match\<close>: \<open>lexer.on_match(pattern)(func)\<close>, the function given by its
  \<open>__name__\<close> and its body.  \<open>re.compile\<close> runs when the decorator is applied, before the
  assignment to \<open>_rules\<close>.\<close>

definition on_match ::
  "(string \<Rightarrow> pattern option) \<Rightarrow> string \<Rightarrow> string \<times> action \<Rightarrow> lexer \<Rightarrow> (exn + unit) \<times> lexer" where
  "on_match re_compile pat func L =
     (case re_compile pat of
        None \<Rightarrow> (Inl (ReError pat), L)
      | Some compiled_pattern \<Rightarrow>
          (Inr (), L\<lparr>rules := dict_set (rules L) (fst func)
                                \<lparr>pattern = compiled_pattern, action = snd func\<rparr>\<rparr>))"

text \<open>\<open>Lexer.on_error\<close>\<close>

definition on_error :: "hook \<Rightarrow> lexer \<Rightarrow> lexer" where
  "on_error func L = L\<lparr>error_func := Some func\<rparr>"

text \<open>Iterating the lexer, as \<open>for token in lexer\<close> and \<open>[t for t in lexer]\<close> do:
  \<open>__next__\<close> is called until it raises.  \<open>StopIteration\<close> ends the iteration with the
  tokens yielded so far; any other exception propagates.  The iteration need not
  terminate (a rule may match the empty string for ever), so it takes fuel: \<open>None\<close>
  is an iteration that has not ended after that many calls of \<open>__next__\<close>.\<close>

fun iterate :: "nat \<Rightarrow> lexer \<Rightarrow> ((exn + Token list) \<times> lexer) option" where
  "iterate 0 L = None"
| "iterate (Suc n) L =
     (case lexer_next L of
        (Inl StopIteration, L') \<Rightarrow> Some (Inr [], L')
      | (Inl x, L') \<Rightarrow> Some (Inl x, L')
      | (Inr token, L') \<Rightarrow>
          (case iterate n L' of
             None \<Rightarrow> None
           | Some (Inl x, L'') \<Rightarrow> Some (Inl x, L'')
           | Some (Inr tokens, L'') \<Rightarrow> Some (Inr (token # tokens), L'')))"


section \<open>Observing a session\<close>

text \<open>The whitespace run that the next call of \<open>_token\<close> skips: the text between
  \<open>pos\<close> before the call and \<open>pos\<close> after the whitespace block.\<close>

definition skipped :: "cursor \<Rightarrow> string" where
  "skipped c = slice (buffer c) (pos c) (pos (skip_ws c))"

text \<open>A session as its caller sees it, with the skipped whitespace made visible: for
  each token that the iteration yields, the whitespace run skipped by that call of
  \<open>__next__\<close> and the token; and the whitespace run skipped by the call that ends the
  iteration.  \<open>None\<close> when the iteration raises an error or has not ended after the
  given number of calls.\<close>

fun session :: "nat \<Rightarrow> lexer \<Rightarrow> ((string \<times> Token) list \<times> string) option" where
  "session 0 L = None"
| "session (Suc n) L =
     (case lexer_next L of
        (Inl StopIteration, L') \<Rightarrow> Some ([], skipped (cur L))
      | (Inl x, L') \<Rightarrow> None
      | (Inr token, L') \<Rightarrow>
          (case session n L' of
             None \<Rightarrow> None
           | Some (steps, rest) \<Rightarrow> Some ((skipped (cur L), token) # steps, rest)))"

text \<open>The text read back from a session: each whitespace run followed by the \<open>value\<close>
  of the token after it, in order, then the last whitespace run.\<close>

definition read_back :: "(string \<times> Token) list \<times> string \<Rightarrow> string" where
  "read_back r = concat (map (\<lambda>(ws, token). ws @ token_value token) (fst r)) @ snd r"

text \<open>An input covered by the rules: each call of \<open>__next__\<close>, after its whitespace
  block, is at the end of the buffer or at an offset where some rule matches, and the
  end of the buffer is reached within the given number of calls.\<close>

fun covered :: "nat \<Rightarrow> lexer \<Rightarrow> bool" where
  "covered 0 L = False"
| "covered (Suc n) L =
     (let c = skip_ws (cur L)
      in length (buffer c) \<le> pos c \<or>
         ((\<exists>(token_name, pa) \<in> set (rules L). pattern pa (buffer c) (pos c) \<noteq> None) \<and>
          covered n (snd (lexer_next L))))"

text \<open>An action that returns the token it was given and does not assign
  \<open>self.buffer\<close>.\<close>

definition returns_its_token :: "action \<Rightarrow> bool" where
  "returns_its_token a \<longleftrightarrow>
     (\<forall>c token. fst (a c token) = Inr (Some token) \<and> buffer (snd (a c token)) = buffer c)"


section \<open>Sample rules, actions and hooks\<close>

text \<open>
  Client code in the style of the tests and docstrings of the repository, used to run
  the lexer on concrete inputs: patterns that match one or more characters of a class
  (as \<open>\d+\<close> does) or a literal text, the action \<open>return token\<close>, an action that
  returns \<open>None\<close>, a hook that skips the offending character, and a stand-in for
  \<open>re.compile\<close> that knows three pattern sources and rejects every other one, among
  them the unbalanced \<open>(\<close>.
\<close>

definition span_pattern :: "(char \<Rightarrow> bool) \<Rightarrow> pattern" where
  "span_pattern P b i =
     (let n = length (takeWhile P (drop i b)) in if n = 0 then None else Some (i + n))"

definition lit_pattern :: "string \<Rightarrow> pattern" where
  "lit_pattern s b i = (if slice b i (i + length s) = s then Some (i + length s) else None)"

definition is_digit :: "char \<Rightarrow> bool" where
  "is_digit c \<longleftrightarrow> c \<in> set ''0123456789''"

definition is_lower :: "char \<Rightarrow> bool" where
  "is_lower c \<longleftrightarrow> c \<in> set ''abcdefghijklmnopqrstuvwxyz''"

definition return_token :: action where
  "return_token c token = (Inr (Some token), c)"

definition return_none :: action where
  "return_none c token = (Inr None, c)"

definition skip_hook :: hook where
  "skip_hook c ch = (Inr (), c\<lparr>pos := pos c + 1\<rparr>)"

definition sample_compile :: "string \<Rightarrow> pattern option" where
  "sample_compile src =
     (if src = [CHR 0x5C, CHR ''d'', CHR ''+''] then Some (span_pattern is_digit)
      else if src = ''[a-z]+'' then Some (span_pattern is_lower)
      else if src = ''a'' then Some (lit_pattern ''a'')
      else None)"

text \<open>A lexer with the rules \<open>ID\<close> and \<open>DIGIT\<close>, registered in this order.\<close>

definition sample_lexer :: lexer where
  "sample_lexer =
     snd (on_match sample_compile [CHR 0x5C, CHR ''d'', CHR ''+''] (''DIGIT'', return_token)
       (snd (on_match sample_compile ''[a-z]+'' (''ID'', return_token) lexer_init)))"

text \<open>A lexer whose only action returns \<open>None\<close>.\<close>

definition dropping_lexer :: lexer where
  "dropping_lexer =
     snd (on_match sample_compile [CHR 0x5C, CHR ''d'', CHR ''+''] (''DIGIT'', return_none)
       lexer_init)"

text \<open>The sample lexer after the first pull on \<open>"12  "\<close>: only whitespace is left.\<close>

definition spent_lexer :: lexer where
  "spent_lexer = snd (lexer_next (lexer_setup ''12  '' True sample_lexer))"

text \<open>Two lexers on the buffer \<open>"ab"\<close> with the same two rules, registered in the two
  orders: \<open>A\<close> matches the text \<open>a\<close>, \<open>ID\<close> matches a run of lower-case letters.\<close>

definition a_then_id :: lexer where
  "a_then_id =
     lexer_setup ''ab'' True
       (snd (on_match sample_compile ''[a-z]+'' (''ID'', return_token)
         (snd (on_match sample_compile ''a'' (''A'', return_token) lexer_init))))"

definition id_then_a :: lexer where
  "id_then_a =
     lexer_setup ''ab'' True
       (snd (on_match sample_compile ''a'' (''A'', return_token)
         (snd (on_match sample_compile ''[a-z]+'' (''ID'', return_token) lexer_init))))"

text \<open>A lexer reused for a second session: it has read \<open>"\n#"\<close> (one pull, which
  skips the newline and fails on \<open>#\<close>), and is then given the buffer \<open>"#"\<close>.\<close>

definition reused_lexer :: lexer where
  "reused_lexer =
     lexer_setup ''#'' True (snd (lexer_next (lexer_setup (newline # ''#'') True lexer_init)))"

text \<open>A lexer with the skipping hook installed and no rule, on the buffer \<open>"#"\<close>.\<close>

definition hooked_lexer :: lexer where
  "hooked_lexer = lexer_setup ''#'' True (on_error skip_hook lexer_init)"

text \<open>
  The rules of \<open>tests/test_lexer.py\<close>, registered in the order \<open>DIGIT\<close>, \<open>ID\<close>, \<open>OP\<close>,
  \<open>PAREN\<close>, each with the action \<open>return token\<close>.  The four patterns are written as
  matchers: \<open>\d+(\.\d+)?\<close> is a run of digits, then a dot and a run of digits when both
  are there; \<open>[a-zA-Z]+([0-9a-zA-Z_]+)?\<close> is a run of letters, then a run of word
  characters when there is one; \<open>(\+|\-|\*|/)\<close> and \<open>[()]\<close> are one character of a set.
\<close>

definition is_alpha :: "char \<Rightarrow> bool" where
  "is_alpha c \<longleftrightarrow> c \<in> set ''abcdefghijklmnopqrstuvwxyzABCDEFGHIJKLMNOPQRSTUVWXYZ''"

definition is_word :: "char \<Rightarrow> bool" where
  "is_word c \<longleftrightarrow> is_digit c \<or> is_alpha c \<or> c = CHR ''_''"

definition one_of :: "string \<Rightarrow> pattern" where
  "one_of cs b i = (if i < length b \<and> b ! i \<in> set cs then Some (i + 1) else None)"

definition DIGIT_pattern :: pattern where
  "DIGIT_pattern b i =
     (case span_pattern is_digit b i of
        None \<Rightarrow> None
      | Some e \<Rightarrow>
          (if e < length b \<and> b ! e = CHR ''.''
           then (case span_pattern is_digit b (e + 1) of None \<Rightarrow> Some e | Some e' \<Rightarrow> Some e')
           else Some e))"

definition ID_pattern :: pattern where
  "ID_pattern b i =
     (case span_pattern is_alpha b i of
        None \<Rightarrow> None
      | Some e \<Rightarrow> (case span_pattern is_word b e of None \<Rightarrow> Some e | Some e' \<Rightarrow> Some e'))"

definition test_lexer :: lexer where
  "test_lexer = lexer_init\<lparr>rules :=
     [(''DIGIT'', \<lparr>pattern = DIGIT_pattern, action = return_token\<rparr>),
      (''ID'', \<lparr>pattern = ID_pattern, action = return_token\<rparr>),
      (''OP'', \<lparr>pattern = one_of ''+-*/'', action = return_token\<rparr>),
      (''PAREN'', \<lparr>pattern = one_of ''()'', action = return_token\<rparr>)]\<rparr>"

text \<open>\<open>token_types\<close> of the test file: \<open>[t.type for t in lexer]\<close>.\<close>

definition token_types :: "nat \<Rightarrow> lexer \<Rightarrow> (exn + string list) option" where
  "token_types n L =
     (case iterate n L of
        None \<Rightarrow> None
      | Some (Inl x, L') \<Rightarrow> Some (Inl x)
      | Some (Inr tokens, L') \<Rightarrow> Some (Inr (map token_type tokens)))"

text \<open>The lexer as an iteration leaves it, whether it ended or raised.\<close>

definition after_iteration :: "nat \<Rightarrow> lexer \<Rightarrow> lexer" where
  "after_iteration n L = (case iterate n L of None \<Rightarrow> L | Some (r, L') \<Rightarrow> L')"

text \<open>The three sessions of \<open>test_errors\<close>, run on one lexer one after the other.\<close>

definition test_errors_1 :: lexer where
  "test_errors_1 = after_iteration 20 (lexer_setup ''#'' True test_lexer)"

definition test_errors_2 :: lexer where
  "test_errors_2 =
     after_iteration 20
       (lexer_setup (''1x + 2'' @ [newline] @ ''2.356 * (6 /^ 7)'') True test_errors_1)"

definition test_errors_3 :: lexer where
  "test_errors_3 =
     after_iteration 20
       (lexer_setup (''11.75 + (2)'' @ [newline] @ ''(1 + 7)'' @ [newline, newline]
                     @ ''10 + (4 * @) - 7'') True test_errors_2)"

lemmas sample_defs =
  sample_lexer_def dropping_lexer_def on_match_def sample_compile_def lexer_init_def
  lexer_setup_def span_pattern_def lit_pattern_def is_digit_def is_lower_def
  return_token_def return_none_def

lemmas run_defs =
  lexer_next_def lexer_token_def skip_ws_def ws_pattern_def is_space_def slice_def
  fire_def get_pos_def newline_def Let_def


section \<open>Position tracking\<close>

lemma str_count_filter:
  "str_count s ch 0 n = length (filter (\<lambda>x. x = ch) (take n s))"
  by (induction s arbitrary: n) (auto simp: take_Cons')

text \<open>
  Claim C6.  \<open>get_pos\<close> returns the pair (line, column) in which the line is the number of
  newline characters in \<open>buffer[0:pos]\<close> and the column is \<open>pos\<close> minus \<open>_line_start\<close>.
\<close>

theorem get_pos_line_column:
  "get_pos c =
     (length (filter (\<lambda>x. x = newline) (take (pos c) (buffer c))),
      int (pos c) - int (line_start c))"
  by (simp add: get_pos_def str_count_filter)


section \<open>Sessions\<close>

text \<open>What \<open>setup\<close> assigns and what it leaves alone: \<open>_line_start\<close> is among the
  attributes it leaves alone.\<close>

lemma lexer_setup_frame:
  "pos (cur (lexer_setup b w L)) = 0 \<and> ignore_ws (cur (lexer_setup b w L)) = w \<and>
   buffer (cur (lexer_setup b w L)) = b \<and>
   rules (lexer_setup b w L) = rules L \<and> error_func (lexer_setup b w L) = error_func L \<and>
   line_start (cur (lexer_setup b w L)) = line_start (cur L)"
  by (simp add: lexer_setup_def)

text \<open>
  Claim C1.  The claim is that \<open>setup\<close> sets \<open>pos\<close> and \<open>line_start\<close> to zero, sets
  \<open>ignore_whitespace\<close> and keeps the rules and the hook.  The code does not assign
  \<open>_line_start\<close>: a lexer that has read the buffer \<open>"\n#"\<close> has \<open>_line_start = 1\<close>,
  keeps it through \<open>setup("#")\<close>, and then reports the position (0, -1).
\<close>

theorem setup_keeps_stale_line_start:
  "line_start (cur (snd (lexer_next (lexer_setup (newline # ''#'') True lexer_init)))) = 1 \<and>
   line_start (cur reused_lexer) = 1 \<and>
   pos (cur reused_lexer) = 0 \<and>
   buffer (cur reused_lexer) = ''#'' \<and>
   get_pos (cur reused_lexer) = (0, - 1)"
  unfolding reused_lexer_def by code_simp


section \<open>The tests of the repository\<close>

text \<open>The model passes the tests of the repository on these inputs:
  \<open>test_multiple_tokens\<close> on its longest inputs, and the three positions of
  \<open>test_errors\<close>.\<close>

lemma test_multiple_tokens:
  "token_types 12 (lexer_setup ''7y * (3 * 3) - 4.6x'' True test_lexer) =
     Some (Inr [''DIGIT'', ''ID'', ''OP'', ''PAREN'', ''DIGIT'', ''OP'', ''DIGIT'', ''PAREN'',
                ''OP'', ''DIGIT'', ''ID''])"
  "token_types 15 (lexer_setup ''(1) + 2 * (xy - 3) / 4z'' True test_lexer) =
     Some (Inr [''PAREN'', ''DIGIT'', ''PAREN'', ''OP'', ''DIGIT'', ''OP'', ''PAREN'', ''ID'',
                ''OP'', ''DIGIT'', ''PAREN'', ''OP'', ''DIGIT'', ''ID''])"
  by code_simp+

lemma test_errors:
  "get_pos (cur test_errors_1) = (0, 0)"
  "get_pos (cur test_errors_2) = (1, 12)"
  "get_pos (cur test_errors_3) = (3, 10)"
  unfolding test_errors_1_def test_errors_2_def test_errors_3_def by code_simp+

text \<open>\<open>test_errors\<close> does not look at the tokens: in its third session, which starts
  with the \<open>_line_start = 7\<close> of the second, the first token is at column \<open>-7\<close>.\<close>

lemma test_errors_stale_line_start:
  "line_start (cur test_errors_2) = 7"
  "fst (lexer_next (lexer_setup (''11.75 + (2)'' @ [newline] @ ''(1 + 7)'' @ [newline, newline]
                     @ ''10 + (4 * @) - 7'') True test_errors_2)) =
     Inr (Token ''11.75'' ''DIGIT'' (0, - 7))"
  unfolding test_errors_1_def test_errors_2_def by code_simp+


section \<open>Rule selection\<close>

text \<open>The rule loop stops at the first rule of the registry whose pattern matches.\<close>

lemma token_loop_first_match:
  assumes "\<forall>(token_name, pa') \<in> set xs. pattern pa' (buffer (cur L)) (pos (cur L)) = None"
    and "pattern pa (buffer (cur L)) (pos (cur L)) = Some e"
  shows "token_loop (xs @ (name, pa) # ys) L = fire L name pa e"
  using assms by (induction xs) auto

lemma skip_ws_buffer [simp]: "buffer (skip_ws c) = buffer c"
  by (simp add: skip_ws_def split: option.splits)

lemma lexer_token_first_match:
  assumes "rules L = xs @ (name, pa) # ys"
    and "\<forall>(token_name, pa') \<in> set xs.
           pattern pa' (buffer (cur L)) (pos (skip_ws (cur L))) = None"
    and "pattern pa (buffer (cur L)) (pos (skip_ws (cur L))) = Some e"
    and "pos (skip_ws (cur L)) < length (buffer (cur L))"
  shows "lexer_token L = fire (L\<lparr>cur := skip_ws (cur L)\<rparr>) name pa e"
  using assms by (simp add: lexer_token_def Let_def token_loop_first_match)

text \<open>The order of the registry is the order of registration: a rule registered
  under a new name goes last.\<close>

lemma dict_set_new_key:
  "k \<notin> fst ` set d \<Longrightarrow> dict_set d k v = d @ [(k, v)]"
  by (induction d) auto

lemma on_match_new_name:
  "re_compile P = Some p \<Longrightarrow> N \<notin> fst ` set (rules L) \<Longrightarrow>
   on_match re_compile P (N, f) L =
     (Inr (), L\<lparr>rules := rules L @ [(N, \<lparr>pattern = p, action = f\<rparr>)]\<rparr>)"
  by (simp add: on_match_def dict_set_new_key)

text \<open>
  Claim C4.  When two rules of the registry both match at the current offset (the offset
  after the whitespace block) and no rule before them does, \<open>_token\<close> runs the one that
  comes first in the registry, on the match of that rule's own pattern, whatever the
  other one would match.  With the two rules exchanged in the registry, \<open>_token\<close> runs
  the other rule, again on the match of its own pattern.
\<close>

theorem first_registered_rule_wins:
  assumes "rules L = xs @ (n1, pa1) # ys @ (n2, pa2) # zs"
    and "\<forall>(token_name, pa') \<in> set xs.
           pattern pa' (buffer (cur L)) (pos (skip_ws (cur L))) = None"
    and "pos (skip_ws (cur L)) < length (buffer (cur L))"
    and "pattern pa1 (buffer (cur L)) (pos (skip_ws (cur L))) = Some e1"
    and "pattern pa2 (buffer (cur L)) (pos (skip_ws (cur L))) = Some e2"
  shows "lexer_token L = fire (L\<lparr>cur := skip_ws (cur L)\<rparr>) n1 pa1 e1 \<and>
         lexer_token (L\<lparr>rules := xs @ (n2, pa2) # ys @ (n1, pa1) # zs\<rparr>) =
           fire (L\<lparr>rules := xs @ (n2, pa2) # ys @ (n1, pa1) # zs, cur := skip_ws (cur L)\<rparr>)
                n2 pa2 e2"
proof
  show "lexer_token L = fire (L\<lparr>cur := skip_ws (cur L)\<rparr>) n1 pa1 e1"
    using assms by (intro lexer_token_first_match) auto
next
  let ?L' = "L\<lparr>rules := xs @ (n2, pa2) # ys @ (n1, pa1) # zs\<rparr>"
  have "lexer_token ?L' = fire (?L'\<lparr>cur := skip_ws (cur ?L')\<rparr>) n2 pa2 e2"
    using assms by (intro lexer_token_first_match) auto
  then show "lexer_token ?L' =
      fire (L\<lparr>rules := xs @ (n2, pa2) # ys @ (n1, pa1) # zs, cur := skip_ws (cur L)\<rparr>) n2 pa2 e2"
    by simp
qed

text \<open>On \<open>"ab"\<close>, with \<open>A\<close> registered before \<open>ID\<close> the token is \<open>a\<close> of type \<open>A\<close>,
  although \<open>ID\<close> would match the longer \<open>ab\<close>; with \<open>ID\<close> registered first the token
  is \<open>ab\<close> of type \<open>ID\<close>.\<close>

theorem first_registered_rule_wins_witness:
  "rules a_then_id =
     [] @ (''A'', \<lparr>pattern = lit_pattern ''a'', action = return_token\<rparr>) # []
        @ (''ID'', \<lparr>pattern = span_pattern is_lower, action = return_token\<rparr>) # [] \<and>
   a_then_id\<lparr>rules :=
     [] @ (''ID'', \<lparr>pattern = span_pattern is_lower, action = return_token\<rparr>) # []
        @ (''A'', \<lparr>pattern = lit_pattern ''a'', action = return_token\<rparr>) # []\<rparr> = id_then_a \<and>
   pos (skip_ws (cur a_then_id)) < length (buffer (cur a_then_id)) \<and>
   lit_pattern ''a'' (buffer (cur a_then_id)) (pos (skip_ws (cur a_then_id))) = Some 1 \<and>
   span_pattern is_lower (buffer (cur a_then_id)) (pos (skip_ws (cur a_then_id))) = Some 2 \<and>
   lexer_token a_then_id =
     (Inr (Some (Token ''a'' ''A'' (0, 0))), a_then_id\<lparr>cur := (cur a_then_id)\<lparr>pos := 1\<rparr>\<rparr>) \<and>
   lexer_token id_then_a =
     (Inr (Some (Token ''ab'' ''ID'' (0, 0))), id_then_a\<lparr>cur := (cur id_then_a)\<lparr>pos := 2\<rparr>\<rparr>)"
proof -
  let ?A = "\<lparr>pattern = lit_pattern ''a'', action = return_token\<rparr>"
  let ?I = "\<lparr>pattern = span_pattern is_lower, action = return_token\<rparr>"
  have r: "rules a_then_id = [] @ (''A'', ?A) # [] @ (''ID'', ?I) # []"
    by (simp add: a_then_id_def on_match_def sample_compile_def lexer_init_def lexer_setup_def)
  have sw: "a_then_id\<lparr>rules := [] @ (''ID'', ?I) # [] @ (''A'', ?A) # []\<rparr> = id_then_a"
    by (simp add: a_then_id_def id_then_a_def on_match_def sample_compile_def lexer_init_def
        lexer_setup_def)
  have c: "skip_ws (cur a_then_id) = cur a_then_id" "cur id_then_a = cur a_then_id"
    and b: "buffer (cur a_then_id) = ''ab''" and p: "pos (cur a_then_id) = 0"
    by (simp_all add: a_then_id_def id_then_a_def sample_defs run_defs)
  have h1: "\<forall>(token_name, pa') \<in> set [].
      pattern pa' (buffer (cur a_then_id)) (pos (skip_ws (cur a_then_id))) = None"
    by simp
  have h2: "pos (skip_ws (cur a_then_id)) < length (buffer (cur a_then_id))"
    by (simp add: c b p)
  have m1: "lit_pattern ''a'' (buffer (cur a_then_id)) (pos (skip_ws (cur a_then_id))) = Some 1"
    and m2: "span_pattern is_lower (buffer (cur a_then_id)) (pos (skip_ws (cur a_then_id))) = Some 2"
    by (simp_all add: c b p sample_defs slice_def)
  have h3: "pattern ?A (buffer (cur a_then_id)) (pos (skip_ws (cur a_then_id))) = Some 1"
    and h4: "pattern ?I (buffer (cur a_then_id)) (pos (skip_ws (cur a_then_id))) = Some 2"
    by (simp_all add: m1 m2)
  have g: "get_pos (cur a_then_id) = (0, 0)"
    by (simp add: a_then_id_def sample_defs run_defs)
  have f1: "fire (a_then_id\<lparr>cur := skip_ws (cur a_then_id)\<rparr>) ''A'' ?A 1 =
      (Inr (Some (Token ''a'' ''A'' (0, 0))), a_then_id\<lparr>cur := (cur a_then_id)\<lparr>pos := 1\<rparr>\<rparr>)"
    by (simp add: c fire_def g b p slice_def return_token_def)
  have f2: "fire (id_then_a\<lparr>cur := skip_ws (cur a_then_id)\<rparr>) ''ID'' ?I 2 =
      (Inr (Some (Token ''ab'' ''ID'' (0, 0))), id_then_a\<lparr>cur := (cur id_then_a)\<lparr>pos := 2\<rparr>\<rparr>)"
    by (simp add: c fire_def g b p slice_def return_token_def)
  have e: "a_then_id\<lparr>rules := [] @ (''ID'', ?I) # [] @ (''A'', ?A) # [],
                      cur := skip_ws (cur a_then_id)\<rparr> = id_then_a\<lparr>cur := skip_ws (cur a_then_id)\<rparr>"
    by (subst sw [symmetric]) simp
  from first_registered_rule_wins [OF r h1 h2 h3 h4]
  have "lexer_token a_then_id =
         (Inr (Some (Token ''a'' ''A'' (0, 0))), a_then_id\<lparr>cur := (cur a_then_id)\<lparr>pos := 1\<rparr>\<rparr>)"
    and "lexer_token id_then_a =
         (Inr (Some (Token ''ab'' ''ID'' (0, 0))), id_then_a\<lparr>cur := (cur id_then_a)\<lparr>pos := 2\<rparr>\<rparr>)"
    unfolding e sw f1 f2 by simp_all
  with r sw h2 m1 m2 show ?thesis by blast
qed

text \<open>
  Claim C5.  When a rule is the first one to match at the current offset, its action is
  called with the cursor still at the start of the match and with a token whose value
  is the matched text, whose type is the rule's name and whose position is \<open>get_pos\<close> at
  that start.  What the action returns is what \<open>_token\<close> returns, and \<open>pos\<close> becomes the
  end of the match in the state the action left.  (An action that raises leaves \<open>pos\<close>
  where it put it.)
\<close>

theorem token_built_before_advance:
  assumes "rules L = xs @ (name, pa) # ys"
    and "\<forall>(token_name, pa') \<in> set xs.
           pattern pa' (buffer (cur L)) (pos (skip_ws (cur L))) = None"
    and "pattern pa (buffer (cur L)) (pos (skip_ws (cur L))) = Some e"
    and "pos (skip_ws (cur L)) < length (buffer (cur L))"
  shows "lexer_token L =
     (case action pa (skip_ws (cur L))
             (Token (slice (buffer (cur L)) (pos (skip_ws (cur L))) e) name
                    (get_pos (skip_ws (cur L)))) of
        (Inl x, c') \<Rightarrow> (Inl x, L\<lparr>cur := c'\<rparr>)
      | (Inr returned, c') \<Rightarrow> (Inr returned, L\<lparr>cur := c'\<lparr>pos := e\<rparr>\<rparr>))"
  using lexer_token_first_match [OF assms]
  by (simp add: fire_def split: prod.splits sum.splits)

theorem token_built_before_advance_witness:
  "rules (lexer_setup '' 12 ab'' True sample_lexer) =
     [(''ID'', \<lparr>pattern = span_pattern is_lower, action = return_token\<rparr>)]
     @ (''DIGIT'', \<lparr>pattern = span_pattern is_digit, action = return_token\<rparr>) # [] \<and>
   pos (skip_ws (cur (lexer_setup '' 12 ab'' True sample_lexer))) = 1 \<and>
   span_pattern is_lower '' 12 ab'' 1 = None \<and>
   span_pattern is_digit '' 12 ab'' 1 = Some 3 \<and>
   lexer_token (lexer_setup '' 12 ab'' True sample_lexer) =
     (Inr (Some (Token ''12'' ''DIGIT'' (0, 1))),
      (lexer_setup '' 12 ab'' True sample_lexer)
        \<lparr>cur := (cur (lexer_setup '' 12 ab'' True sample_lexer))\<lparr>pos := 3\<rparr>\<rparr>)"
proof -
  let ?L = "lexer_setup '' 12 ab'' True sample_lexer"
  have r: "rules ?L =
     [(''ID'', \<lparr>pattern = span_pattern is_lower, action = return_token\<rparr>)]
     @ (''DIGIT'', \<lparr>pattern = span_pattern is_digit, action = return_token\<rparr>) # []"
    by (simp add: sample_lexer_def on_match_def sample_compile_def lexer_init_def lexer_setup_def)
  have p: "pos (skip_ws (cur ?L)) = 1" and b: "buffer (cur ?L) = '' 12 ab''"
    by (simp_all add: sample_defs run_defs)
  have m1: "span_pattern is_lower '' 12 ab'' 1 = None"
    and m2: "span_pattern is_digit '' 12 ab'' 1 = Some 3"
    by (simp_all add: sample_defs)
  have s: "skip_ws (cur ?L) = (cur ?L)\<lparr>pos := 1\<rparr>"
    by (simp add: sample_defs run_defs)
  have "lexer_token ?L =
     (Inr (Some (Token ''12'' ''DIGIT'' (0, 1))), ?L\<lparr>cur := (cur ?L)\<lparr>pos := 3\<rparr>\<rparr>)"
    using token_built_before_advance [of ?L _ "''DIGIT''" _ "[]" 3, OF r]
    by (simp add: p b m1 m2 s) (simp add: sample_defs run_defs)
  with r p m1 m2 show ?thesis by simp
qed

text \<open>
  Claim C10.  When the first matching rule's action returns \<open>None\<close>, \<open>_token\<close> still
  assigns the end of the match to \<open>pos\<close> and returns \<open>None\<close>, so \<open>__next__\<close> raises
  \<open>StopIteration\<close> and the iteration ends there, as it does on an exhausted buffer,
  whatever is left of the input.
\<close>

theorem action_returning_none_ends_iteration:
  assumes "rules L = xs @ (name, pa) # ys"
    and "\<forall>(token_name, pa') \<in> set xs.
           pattern pa' (buffer (cur L)) (pos (skip_ws (cur L))) = None"
    and "pattern pa (buffer (cur L)) (pos (skip_ws (cur L))) = Some e"
    and "pos (skip_ws (cur L)) < length (buffer (cur L))"
    and "action pa (skip_ws (cur L))
           (Token (slice (buffer (cur L)) (pos (skip_ws (cur L))) e) name
                  (get_pos (skip_ws (cur L)))) = (Inr None, c')"
  shows "lexer_token L = (Inr None, L\<lparr>cur := c'\<lparr>pos := e\<rparr>\<rparr>) \<and>
         lexer_next L = (Inl StopIteration, L\<lparr>cur := c'\<lparr>pos := e\<rparr>\<rparr>) \<and>
         iterate (Suc n) L = Some (Inr [], L\<lparr>cur := c'\<lparr>pos := e\<rparr>\<rparr>)"
proof -
  have "lexer_token L = (Inr None, L\<lparr>cur := c'\<lparr>pos := e\<rparr>\<rparr>)"
    using lexer_token_first_match [OF assms(1-4)] assms(5) by (simp add: fire_def)
  then show ?thesis by (simp add: lexer_next_def)
qed

text \<open>On \<open>"12 ab"\<close> the iteration ends after \<open>12\<close>, at offset 2 of 5.\<close>

theorem action_returning_none_ends_iteration_witness:
  "rules (lexer_setup ''12 ab'' True dropping_lexer) =
     [] @ (''DIGIT'', \<lparr>pattern = span_pattern is_digit, action = return_none\<rparr>) # [] \<and>
   pos (skip_ws (cur (lexer_setup ''12 ab'' True dropping_lexer))) = 0 \<and>
   span_pattern is_digit ''12 ab'' 0 = Some 2 \<and>
   return_none (skip_ws (cur (lexer_setup ''12 ab'' True dropping_lexer)))
       (Token ''12'' ''DIGIT'' (0, 0)) =
     (Inr None, cur (lexer_setup ''12 ab'' True dropping_lexer)) \<and>
   lexer_next (lexer_setup ''12 ab'' True dropping_lexer) =
     (Inl StopIteration,
      (lexer_setup ''12 ab'' True dropping_lexer)
        \<lparr>cur := (cur (lexer_setup ''12 ab'' True dropping_lexer))\<lparr>pos := 2\<rparr>\<rparr>) \<and>
   iterate (Suc 0) (lexer_setup ''12 ab'' True dropping_lexer) =
     Some (Inr [],
      (lexer_setup ''12 ab'' True dropping_lexer)
        \<lparr>cur := (cur (lexer_setup ''12 ab'' True dropping_lexer))\<lparr>pos := 2\<rparr>\<rparr>) \<and>
   length (buffer (cur (lexer_setup ''12 ab'' True dropping_lexer))) = 5"
proof -
  let ?L = "lexer_setup ''12 ab'' True dropping_lexer"
  let ?pa = "\<lparr>pattern = span_pattern is_digit, action = return_none\<rparr>"
  have r: "rules ?L = [] @ (''DIGIT'', ?pa) # []"
    by (simp add: sample_defs)
  have s: "skip_ws (cur ?L) = cur ?L"
    by (simp add: sample_defs run_defs)
  have b: "buffer (cur ?L) = ''12 ab''" and p: "pos (cur ?L) = 0"
    by (simp_all add: sample_defs)
  have m: "span_pattern is_digit ''12 ab'' 0 = Some 2"
    by (simp add: sample_defs)
  have h1: "\<forall>(token_name, pa') \<in> set [].
              pattern pa' (buffer (cur ?L)) (pos (skip_ws (cur ?L))) = None"
    by simp
  have h2: "pattern ?pa (buffer (cur ?L)) (pos (skip_ws (cur ?L))) = Some 2"
    by (simp add: s b p m)
  have h3: "pos (skip_ws (cur ?L)) < length (buffer (cur ?L))"
    by (simp add: s b p)
  have h4: "action ?pa (skip_ws (cur ?L))
             (Token (slice (buffer (cur ?L)) (pos (skip_ws (cur ?L))) 2) ''DIGIT''
                  (get_pos (skip_ws (cur ?L)))) = (Inr None, cur ?L)"
    by (simp add: s return_none_def)
  have a: "return_none (skip_ws (cur ?L)) (Token ''12'' ''DIGIT'' (0, 0)) = (Inr None, cur ?L)"
    by (simp add: s return_none_def)
  show ?thesis
    using action_returning_none_ends_iteration [OF r h1 h2 h3 h4, of 0] r m a
    by (simp add: s b p)
qed


section \<open>End of input\<close>

lemma ws_pattern_end: "length b \<le> i \<Longrightarrow> ws_pattern b i = None"
  by (simp add: ws_pattern_def)

lemma skip_ws_at_end: "length (buffer c) \<le> pos c \<Longrightarrow> skip_ws c = c"
  by (simp add: skip_ws_def ws_pattern_end)

text \<open>
  Claim C8.  When \<open>pos\<close> is at or past the end of the buffer after the whitespace block
  (which does nothing when \<open>_ignore_ws\<close> is off), \<open>__next__\<close> raises \<open>StopIteration\<close>:
  the iteration ends at that call, with no further token and no error, for any
  positive amount of fuel.  The state it leaves is one in which every later call of
  \<open>__next__\<close> raises \<open>StopIteration\<close> again and changes nothing.
\<close>

theorem exhausted_buffer_ends_iteration:
  assumes "length (buffer (cur L)) \<le> pos (skip_ws (cur L))"
  shows "lexer_next L = (Inl StopIteration, L\<lparr>cur := skip_ws (cur L)\<rparr>) \<and>
         iterate (Suc n) L = Some (Inr [], L\<lparr>cur := skip_ws (cur L)\<rparr>) \<and>
         lexer_next (L\<lparr>cur := skip_ws (cur L)\<rparr>) =
           (Inl StopIteration, L\<lparr>cur := skip_ws (cur L)\<rparr>)"
proof -
  have 1: "lexer_token L = (Inr None, L\<lparr>cur := skip_ws (cur L)\<rparr>)"
    using assms by (simp add: lexer_token_def Let_def)
  have "skip_ws (skip_ws (cur L)) = skip_ws (cur L)"
    using assms by (simp add: skip_ws_at_end)
  then have 2: "lexer_token (L\<lparr>cur := skip_ws (cur L)\<rparr>) = (Inr None, L\<lparr>cur := skip_ws (cur L)\<rparr>)"
    using assms by (simp add: lexer_token_def Let_def)
  show ?thesis using 1 2 by (simp add: lexer_next_def)
qed

theorem exhausted_buffer_ends_iteration_witness:
  "length (buffer (cur spent_lexer)) \<le> pos (skip_ws (cur spent_lexer)) \<and>
   buffer (cur spent_lexer) = ''12  '' \<and>
   pos (cur spent_lexer) = 2 \<and> pos (skip_ws (cur spent_lexer)) = 4 \<and>
   lexer_next spent_lexer = (Inl StopIteration, spent_lexer\<lparr>cur := skip_ws (cur spent_lexer)\<rparr>) \<and>
   iterate (Suc 0) spent_lexer = Some (Inr [], spent_lexer\<lparr>cur := skip_ws (cur spent_lexer)\<rparr>) \<and>
   lexer_next (spent_lexer\<lparr>cur := skip_ws (cur spent_lexer)\<rparr>) =
     (Inl StopIteration, spent_lexer\<lparr>cur := skip_ws (cur spent_lexer)\<rparr>)"
proof -
  have s: "pos (skip_ws (cur spent_lexer)) = 4"
    and p: "pos (cur spent_lexer) = 2"
    and b: "buffer (cur spent_lexer) = ''12  ''"
    by (simp_all add: spent_lexer_def sample_defs run_defs)
  have h: "length (buffer (cur spent_lexer)) \<le> pos (skip_ws (cur spent_lexer))"
    unfolding s b by simp
  from exhausted_buffer_ends_iteration [OF h, of 0] h p s b
  show ?thesis by blast
qed


section \<open>Registration\<close>

text \<open>
  Claim C9.  When the pattern source does not compile, applying the decorator of
  \<open>on_match\<close> raises at once, and the lexer, its rule registry included, is as it was
  before the call.
\<close>

theorem invalid_pattern_leaves_registry:
  "re_compile P = None \<Longrightarrow>
   on_match re_compile P (N, f) L = (Inl (ReError P), L) \<and>
   rules (snd (on_match re_compile P (N, f) L)) = rules L"
  by (simp add: on_match_def)

theorem invalid_pattern_leaves_registry_witness:
  "sample_compile ''('' = None \<and>
   on_match sample_compile ''('' (''PAREN'', return_token) sample_lexer =
     (Inl (ReError ''(''), sample_lexer) \<and>
   rules (snd (on_match sample_compile ''('' (''PAREN'', return_token) sample_lexer)) =
     rules sample_lexer \<and>
   map fst (rules sample_lexer) = [''ID'', ''DIGIT'']"
proof -
  have h: "sample_compile ''('' = None"
    by (simp add: sample_compile_def)
  have "map fst (rules sample_lexer) = [''ID'', ''DIGIT'']"
    by (simp add: sample_defs)
  with h invalid_pattern_leaves_registry
           [of sample_compile "''(''" "''PAREN''" return_token sample_lexer, OF h]
  show ?thesis by simp
qed


section \<open>Errors\<close>

text \<open>With a hook installed and no attribute \<open>_pos\<close>, \<open>_error\<close> raises
  \<open>AttributeError\<close> before it calls the hook.\<close>

lemma hook_branch_attribute_error:
  "error_func L = Some f \<Longrightarrow> underscore_pos (cur L) = None \<Longrightarrow>
   lexer_error L = (Inl (AttributeError ''_pos''), L)"
  by (simp add: lexer_error_def)

text \<open>
  Claim C2.  The claim is that, with a hook installed, a position where no rule matches
  leads to a call of the hook with the lexer and the character at \<open>pos\<close>.  The code
  reads \<open>self._pos\<close>, an attribute that the class never creates: on the buffer \<open>"#"\<close>
  with the skipping hook installed, the pull raises \<open>AttributeError\<close> and \<open>pos\<close> is
  still 0, whereas the hook called on \<open>#\<close> would have moved \<open>pos\<close> to 1.
\<close>

theorem hook_not_invoked:
  "lexer_next hooked_lexer = (Inl (AttributeError ''_pos''), hooked_lexer) \<and>
   error_func hooked_lexer = Some skip_hook \<and>
   buffer (cur hooked_lexer) = ''#'' \<and> pos (cur hooked_lexer) = 0 \<and>
   skip_hook (cur hooked_lexer) (CHR ''#'') = (Inr (), (cur hooked_lexer)\<lparr>pos := 1\<rparr>)"
  by (simp add: hooked_lexer_def lexer_next_def lexer_token_def lexer_setup_def on_error_def
      lexer_init_def skip_ws_def ws_pattern_def is_space_def lexer_error_def skip_hook_def)

text \<open>The default branch of \<open>_error\<close>: the line index is always inside the split
  buffer, and the message is the template with its four fields filled in.\<close>

lemma str_split_length:
  "length (str_split s sep) = Suc (length (filter (\<lambda>x. x = sep) s))"
  by (induction s) (auto split: list.splits)

lemma line_in_range:
  "str_count s ch 0 n < length (str_split s ch)"
proof -
  have "length (filter (\<lambda>x. x = ch) (take n s)) \<le> length (filter (\<lambda>x. x = ch) s)"
    by (metis append_take_drop_id filter_append length_append le_add1)
  then show ?thesis by (simp add: str_count_filter str_split_length)
qed

lemma format_error_message:
  "str_format LEXER_ERR_MSG [a1, a2, a3, a4] =
     [newline, newline] @ ''lexing error at line '' @ a1 @ '', column '' @ a2 @ '':''
     @ [newline, newline] @ ''     '' @ a3 @ [newline] @ ''     '' @ a4 @ ''^''
     @ [newline, newline] @ ''invalid character in source'' @ [newline]"
  by (simp add: LEXER_ERR_MSG_def newline_def)

lemma default_error_message:
  assumes "error_func L = None"
  shows "lexer_error L =
     (Inl (LexerError
        ([newline, newline] @ ''lexing error at line '' @ str_int (int (fst (get_pos (cur L))))
         @ '', column '' @ str_int (snd (get_pos (cur L))) @ '':'' @ [newline, newline]
         @ ''     '' @ str_split (buffer (cur L)) newline ! fst (get_pos (cur L)) @ [newline]
         @ ''     '' @ replicate (nat (snd (get_pos (cur L)))) blank @ ''^''
         @ [newline, newline] @ ''invalid character in source'' @ [newline])), L)"
proof -
  obtain line column where g: "get_pos (cur L) = (line, column)"
    by (cases "get_pos (cur L)")
  then have "line = str_count (buffer (cur L)) newline 0 (pos (cur L))"
    by (simp add: get_pos_def)
  then have "line < length (str_split (buffer (cur L)) newline)"
    by (simp add: line_in_range)
  then have "py_index (str_split (buffer (cur L)) newline) (int line) =
      Some (str_split (buffer (cur L)) newline ! line)"
    by (simp add: py_index_def)
  with assms g show ?thesis
    by (simp add: lexer_error_def format_error_message str_repeat_def)
qed

text \<open>
  Claim C7.  The claim is that the default error message is the template filled with
  the 0-indexed line and column, the offending source line, and exactly \<open>column\<close>
  spaces before the caret.  The reused lexer has \<open>_line_start = 1\<close> and \<open>pos = 0\<close>
  (\<open>setup\<close> does not reset \<open>_line_start\<close>): its message gives the column \<open>-1\<close> and puts
  no space before the caret.
\<close>

theorem error_message_negative_column:
  "fst (lexer_next reused_lexer) =
     Inl (LexerError
        ([newline, newline] @ ''lexing error at line 0, column -1:'' @ [newline, newline]
         @ ''     #'' @ [newline]
         @ ''     ^'' @ [newline, newline]
         @ ''invalid character in source'' @ [newline])) \<and>
   get_pos (cur reused_lexer) = (0, - 1) \<and>
   error_func reused_lexer = None"
  by (simp add: reused_lexer_def lexer_next_def lexer_token_def lexer_setup_def lexer_init_def
      skip_ws_def ws_pattern_def is_space_def slice_def newline_def lexer_error_def get_pos_def
      py_index_def str_int_def str_nat.simps digit_char_def str_repeat_def LEXER_ERR_MSG_def)


section \<open>Round trip\<close>

lemma slice_drop: "p \<le> q \<Longrightarrow> slice b p q @ drop q b = drop p b"
proof -
  assume "p \<le> q"
  then have "drop q b = drop (q - p) (drop p b)" by simp
  then show ?thesis by (simp add: slice_def del: drop_drop)
qed

lemma ws_pattern_bounds:
  "ws_pattern b i = Some e \<Longrightarrow> i \<le> length b \<Longrightarrow> i \<le> e \<and> e \<le> length b"
proof -
  assume a: "ws_pattern b i = Some e" and i: "i \<le> length b"
  have "length (takeWhile is_space (drop i b)) \<le> length (drop i b)"
    by (rule length_takeWhile_le)
  with a i show ?thesis
    by (auto simp: ws_pattern_def Let_def split: if_splits)
qed

lemma skip_ws_pos:
  "pos c \<le> length (buffer c) \<Longrightarrow>
   pos c \<le> pos (skip_ws c) \<and> pos (skip_ws c) \<le> length (buffer c)"
  by (auto simp: skip_ws_def split: option.splits dest: ws_pattern_bounds)

lemma first_matching_rule:
  assumes "\<exists>(token_name, pa) \<in> set rs. pattern pa b i \<noteq> None"
  shows "\<exists>xs name pa ys e. rs = xs @ (name, pa) # ys \<and>
           (\<forall>(token_name, pa') \<in> set xs. pattern pa' b i = None) \<and> pattern pa b i = Some e"
proof -
  from assms have "\<exists>r \<in> set rs. pattern (snd r) b i \<noteq> None" by force
  then obtain xs r ys where s: "rs = xs @ r # ys" and r: "pattern (snd r) b i \<noteq> None"
    and n: "\<forall>x \<in> set xs. \<not> pattern (snd x) b i \<noteq> None"
    by (auto simp: split_list_first_prop_iff)
  from r obtain e where "pattern (snd r) b i = Some e" by auto
  with s n show ?thesis
    by (intro exI [of _ xs] exI [of _ "fst r"] exI [of _ "snd r"] exI [of _ ys] exI [of _ e]) auto
qed

text \<open>From any state inside the buffer, a covered run reads back the rest of the
  buffer.\<close>

lemma round_trip_from:
  assumes "\<forall>(token_name, pa) \<in> set (rules L).
             returns_its_token (action pa) \<and> wf_pattern (pattern pa)"
    and "covered n L" and "pos (cur L) \<le> length (buffer (cur L))"
  shows "\<exists>steps rest L'. session n L = Some (steps, rest) \<and>
           iterate n L = Some (Inr (map snd steps), L') \<and>
           read_back (steps, rest) = drop (pos (cur L)) (buffer (cur L))"
  using assms
proof (induction n arbitrary: L)
  case 0
  then show ?case by simp
next
  case (Suc n)
  let ?c = "skip_ws (cur L)"
  let ?b = "buffer (cur L)"
  have bounds: "pos (cur L) \<le> pos ?c" "pos ?c \<le> length ?b"
    using skip_ws_pos [of "cur L"] Suc.prems(3) by auto
  show ?case
  proof (cases "length ?b \<le> pos ?c")
    case True
    then have "lexer_next L = (Inl StopIteration, L\<lparr>cur := ?c\<rparr>)"
      by (simp add: lexer_next_def lexer_token_def Let_def)
    moreover have "skipped (cur L) = drop (pos (cur L)) ?b"
      using True bounds by (simp add: skipped_def slice_def)
    ultimately show ?thesis by (simp add: read_back_def)
  next
    case False
    with Suc.prems(2)
    have m: "\<exists>(token_name, pa) \<in> set (rules L). pattern pa ?b (pos ?c) \<noteq> None"
      and cov: "covered n (snd (lexer_next L))"
      by (auto simp: Let_def)
    from first_matching_rule [OF m] obtain xs name pa ys e
      where r: "rules L = xs @ (name, pa) # ys"
        and n: "\<forall>(token_name, pa') \<in> set xs. pattern pa' ?b (pos ?c) = None"
        and e: "pattern pa ?b (pos ?c) = Some e"
      by blast
    from r Suc.prems(1) have a: "returns_its_token (action pa)"
      and wf: "wf_pattern (pattern pa)"
      by auto
    from False have "pos ?c < length ?b" by simp
    with wf e have "pos ?c \<le> e \<and> e \<le> length ?b"
      unfolding wf_pattern_def by blast
    then have eb: "pos ?c \<le> e" "e \<le> length ?b" by simp_all
    let ?t = "Token (slice ?b (pos ?c) e) name (get_pos ?c)"
    obtain c' where act: "action pa ?c ?t = (Inr (Some ?t), c')" and bc: "buffer c' = ?b"
      using a unfolding returns_its_token_def
      by (metis prod.collapse skip_ws_buffer)
    let ?L' = "L\<lparr>cur := c'\<lparr>pos := e\<rparr>\<rparr>"
    have tok: "lexer_token L = (Inr (Some ?t), ?L')"
      using lexer_token_first_match [OF r n e] False act
      by (simp add: fire_def)
    then have nx: "lexer_next L = (Inr ?t, ?L')"
      by (simp add: lexer_next_def)
    have "\<exists>steps rest L''. session n ?L' = Some (steps, rest) \<and>
           iterate n ?L' = Some (Inr (map snd steps), L'') \<and>
           read_back (steps, rest) = drop (pos (cur ?L')) (buffer (cur ?L'))"
      using Suc.prems(1) cov eb bc by (intro Suc.IH) (simp_all add: nx)
    then obtain steps rest L'' where s: "session n ?L' = Some (steps, rest)"
      and i: "iterate n ?L' = Some (Inr (map snd steps), L'')"
      and rb: "read_back (steps, rest) = drop e ?b"
      using bc by auto
    have "skipped (cur L) @ slice ?b (pos ?c) e @ drop e ?b = drop (pos (cur L)) ?b"
      using bounds eb by (simp add: skipped_def slice_drop)
    with rb have "read_back ((skipped (cur L), ?t) # steps, rest) = drop (pos (cur L)) ?b"
      by (simp add: read_back_def)
    with s i nx show ?thesis by simp
  qed
qed

lemma wf_span_pattern: "wf_pattern (span_pattern P)"
proof -
  have "i + length (takeWhile P (drop i b)) \<le> length b" if "i < length b" for b i
    using that length_takeWhile_le [of P "drop i b"] by simp
  then show ?thesis
    by (auto simp: wf_pattern_def span_pattern_def Let_def split: if_splits)
qed

lemma returns_its_token_return_token: "returns_its_token return_token"
  by (simp add: returns_its_token_def return_token_def)



end
